theory Spec2Isabelle
  imports Main "HOL-Library.Sublist" "HOL-Library.Char_ord" "HOL-Library.List_Lexorder"
begin

section \<open>Data model of pkg.go\<close>

text \<open>
  A Go \<open>error\<close> value is modelled by its dynamic kind and text; \<open>nil\<close> is \<open>None\<close> of
  \<open>error option\<close>. \<open>Meta\<close> tells \<open>*build.NoGoError\<close> apart from every other error.
\<close>

datatype error = Error string | NoGoError string

fun Error_text :: "error \<Rightarrow> string" where
  "Error_text (Error s) = s"
| "Error_text (NoGoError s) = s"

text \<open>
  A function of the source either returns, panics (index out of range, nil dereference) or
  does not return; the last is the value \<open>Timeout\<close> of a model that ran out of fuel.
\<close>

datatype 'a res = Return (val: 'a) | Panic string | Timeout

fun bindR :: "'a res \<Rightarrow> ('a \<Rightarrow> 'b res) \<Rightarrow> 'b res" where
  "bindR (Return x) f = f x"
| "bindR (Panic s) f = Panic s"
| "bindR Timeout f = Timeout"

fun is_Return :: "'a res \<Rightarrow> bool" where
  "is_Return (Return x) = True"
| "is_Return (Panic s) = False"
| "is_Return Timeout = False"

text \<open>\<open>build.Package\<close>: the fields the program reads.\<close>

record build_Package =
  Dir :: string
  ImportPath :: string
  Imports :: "string list"

datatype vcs_Type = NoVCS | Git | Svn | Bzr | Hg

text \<open>
  The manifest document as the YAML codec sees it: the five tagged fields of \<open>Pkg\<close>, each
  present or absent (every tag carries \<open>omitempty\<close>).
\<close>

datatype ydoc = YDoc (y_pkg: "string option") (y_ver: "string option") (y_ref: "string option")
  (y_deps: "ydoc list option") (y_url: "string option")

text \<open>
  \<open>Pkg\<close>. A \<open>*Pkg\<close> is an address into the heap, \<open>nil\<close> is \<open>None\<close>; \<open>'r\<close> is the type of
  \<open>vcs.Repo\<close> handles. The embedded mutex carries no data: the model runs one task at a time,
  where \<open>Lock\<close> and \<open>Unlock\<close> do nothing.
\<close>

record 'r Pkg =
  meta :: "build_Package option"
  repo :: "'r option"
  parent :: "nat option"
  hasManifest :: bool
  manifestFile :: string
  installed :: bool
  path :: string
  installPath :: string
  Name :: string
  Version :: string
  Reference :: string
  Dependencies :: "nat list"
  URL :: string

text \<open>
  What the program does to the outside: log lines, and the two calls that make a backend
  change a working copy.
\<close>

datatype 'r event = Logf string | Get 'r | UpdateVersion 'r string

record ('w, 'r) state =
  heap :: "'r Pkg list"
  world :: 'w
  trace :: "'r event list"

text \<open>
  Everything pkg.go uses and does not define: the package-level variables \<open>vendoring\<close>,
  \<open>cwd\<close>, \<open>gopath\<close>, \<open>gosrcpath\<close>, \<open>installPath\<close> and the function \<open>repoName\<close> (declared
  elsewhere in the repository), \<open>native.IsNative\<close>, \<open>go/build\<close>, \<open>path\<close> and \<open>filepath\<close>,
  the \<open>vcs\<close> backends, the file system and the YAML text codec. \<open>'w\<close> is the state of the
  outside world (disk and network); operations that change it return the new one. \<open>'b\<close> is
  the type of file contents, which only the codec looks into.
\<close>

record ('w, 'r, 'b) env =
  vendoring :: bool
  cwd :: string
  gopath :: string
  gosrcpath :: string
  installPath_g :: string
  repoName :: "string \<Rightarrow> string"
  IsNative :: "string \<Rightarrow> bool"
  build_Import :: "'w \<Rightarrow> string \<Rightarrow> string \<Rightarrow> build_Package \<times> error option"
  Join :: "string list \<Rightarrow> string"
  DetectVcsFromFS :: "'w \<Rightarrow> string \<Rightarrow> vcs_Type \<times> error option"
  NewRepo :: "'w \<Rightarrow> vcs_Type \<Rightarrow> string \<Rightarrow> string \<Rightarrow> 'r option \<times> error option"
  repo_Vcs :: "'r \<Rightarrow> vcs_Type"
  repo_Remote :: "'r \<Rightarrow> string"
  repo_LocalPath :: "'r \<Rightarrow> string"
  repo_CheckLocal :: "'w \<Rightarrow> 'r \<Rightarrow> bool"
  repo_IsDirty :: "'w \<Rightarrow> 'r \<Rightarrow> bool"
  repo_IsReference :: "'w \<Rightarrow> 'r \<Rightarrow> string \<Rightarrow> bool"
  repo_Version :: "'w \<Rightarrow> 'r \<Rightarrow> string \<times> error option"
  repo_Get :: "'w \<Rightarrow> 'r \<Rightarrow> error option \<times> 'w"
  repo_UpdateVersion :: "'w \<Rightarrow> 'r \<Rightarrow> string \<Rightarrow> error option \<times> 'w"
  ReadFile :: "'w \<Rightarrow> string \<Rightarrow> error + 'b"
  WriteFile :: "'w \<Rightarrow> string \<Rightarrow> 'b \<Rightarrow> error option \<times> 'w"
  yaml_encode :: "ydoc \<Rightarrow> error + 'b"
  yaml_decode :: "'b \<Rightarrow> error + ydoc"

section \<open>Strings\<close>

text \<open>
  Go strings are byte strings; \<open>strings.HasPrefix s p\<close> is \<open>prefix p s\<close> and the order of
  \<open>sort.Strings\<close> is the lexicographic order on bytes, the order of \<open>string\<close> here.
\<close>

fun strings_Contains :: "string \<Rightarrow> string \<Rightarrow> bool" where
  "strings_Contains [] sub = (sub = [])"
| "strings_Contains (c # s) sub = (prefix sub (c # s) \<or> strings_Contains s sub)"

text \<open>\<open>strings.Split s sep\<close> for a separator of one byte: never empty.\<close>

fun strings_Split :: "string \<Rightarrow> char \<Rightarrow> string list" where
  "strings_Split [] sep = [[]]"
| "strings_Split (c # s) sep =
     (if c = sep then [] # strings_Split s sep
      else (case strings_Split s sep of
              [] \<Rightarrow> [[c]]
            | w # ws \<Rightarrow> (c # w) # ws))"

fun strings_Join :: "string list \<Rightarrow> string \<Rightarrow> string" where
  "strings_Join [] sep = []"
| "strings_Join [a] sep = a"
| "strings_Join (a # b # bs) sep = a @ sep @ strings_Join (b # bs) sep"

section \<open>Import Resolver\<close>

text \<open>The loop of \<open>resolveImportsRecursive\<close> that keeps the first occurrence of each name.\<close>

fun unique_imports :: "string list \<Rightarrow> (string \<rightharpoonup> bool) \<Rightarrow> string list \<Rightarrow> string list" where
  "unique_imports [] m u = u"
| "unique_imports (i # r) m u =
     (case m i of
        Some ok \<Rightarrow> unique_imports r m u
      | None \<Rightarrow> unique_imports r (m(i \<mapsto> True)) (u @ [i]))"

text \<open>
  The first loop of \<open>resolveImportsRecursive\<close>, with the recursive call as the parameter
  \<open>rec\<close>; \<open>r\<close> is the slice accumulated so far.
\<close>

fun resolve_loop :: "(string \<Rightarrow> string list \<Rightarrow> string list res) \<Rightarrow> ('w, 'r, 'b) env \<Rightarrow> 'w \<Rightarrow>
    string \<Rightarrow> string list \<Rightarrow> string list \<Rightarrow> string list res" where
  "resolve_loop rec E w pth [] r = Return r"
| "resolve_loop rec E w pth (i # imports) r =
     (if IsNative E i then resolve_loop rec E w pth imports r
      else if \<not> vendoring E \<or> strings_Contains i ''vendor'' then resolve_loop rec E w pth imports r
      else
        bindR (case build_Import E w i (cwd E) of
                 (m, Some err) \<Rightarrow> Return r
               | (m, None) \<Rightarrow> bindR (rec i (Imports m)) (\<lambda>sub. Return (r @ sub)))
          (\<lambda>r1. if repoName E i = pth then resolve_loop rec E w pth imports r1
                 else resolve_loop rec E w pth imports (r1 @ [repoName E i])))"

definition resolve_body :: "(string \<Rightarrow> string list \<Rightarrow> string list res) \<Rightarrow> ('w, 'r, 'b) env \<Rightarrow> 'w \<Rightarrow>
    string \<Rightarrow> string list \<Rightarrow> string list res" where
  "resolve_body rec E w pth imports =
     bindR (resolve_loop rec E w pth imports [])
       (\<lambda>r. Return (sort (unique_imports r Map.empty [])))"

text \<open>
  \<open>resolveImportsRecursive\<close>. The fuel bounds the depth of the recursive descent: with fuel
  \<open>n\<close> the call may descend \<open>n\<close> levels below itself, and a descent that needs more is
  \<open>Timeout\<close> (an import cycle makes the source recurse for ever).
\<close>

primrec resolveImportsRecursive :: "nat \<Rightarrow> ('w, 'r, 'b) env \<Rightarrow> 'w \<Rightarrow> string \<Rightarrow> string list \<Rightarrow>
    string list res" where
  "resolveImportsRecursive 0 E w pth imports =
     resolve_body (\<lambda>i is. Timeout) E w pth imports"
| "resolveImportsRecursive (Suc n) E w pth imports =
     resolve_body (resolveImportsRecursive n E w) E w pth imports"

section \<open>Nodes on the heap\<close>

text \<open>Following a \<open>*Pkg\<close>; an address outside the heap is a nil dereference.\<close>

definition deref :: "'r Pkg list \<Rightarrow> nat \<Rightarrow> 'r Pkg res" where
  "deref h a = (if a < length h then Return (h ! a) else Panic ''nil pointer dereference'')"

text \<open>Indexing and slicing a Go slice whose capacity is its length.\<close>

definition at :: "'a list \<Rightarrow> nat \<Rightarrow> 'a res" where
  "at xs i = (if i < length xs then Return (xs ! i) else Panic ''index out of range'')"

definition slice :: "'a list \<Rightarrow> nat \<Rightarrow> nat \<Rightarrow> 'a list res" where
  "slice xs lo hi =
     (if lo \<le> hi \<and> hi \<le> length xs then Return (take (hi - lo) (drop lo xs))
      else Panic ''slice bounds out of range'')"

definition logf :: "('w, 'r) state \<Rightarrow> string \<Rightarrow> ('w, 'r) state" where
  "logf st s = st\<lparr>trace := trace st @ [Logf s]\<rparr>"

definition zero_Pkg :: "'r Pkg" where
  "zero_Pkg = \<lparr>meta = None, repo = None, parent = None, hasManifest = False,
     manifestFile = [], installed = False, path = [], installPath = [],
     Name = [], Version = [], Reference = [], Dependencies = [], URL = []\<rparr>"

definition NewPkg :: "string \<Rightarrow> 'r Pkg" where
  "NewPkg name = zero_Pkg\<lparr>Name := name\<rparr>"

text \<open>
  The walks along \<open>parent\<close>. Fuel \<open>n\<close> allows \<open>n\<close> nested calls; the methods with a value
  receiver take the node itself, those with a pointer receiver its address.
\<close>

primrec Root :: "nat \<Rightarrow> 'r Pkg list \<Rightarrow> 'r Pkg \<Rightarrow> 'r Pkg res" where
  "Root 0 h p = (case parent p of None \<Rightarrow> Return p | Some a \<Rightarrow> Timeout)"
| "Root (Suc n) h p =
     (case parent p of None \<Rightarrow> Return p | Some a \<Rightarrow> bindR (deref h a) (Root n h))"

definition IsRoot :: "'r Pkg \<Rightarrow> bool" where
  "IsRoot p = (parent p = None)"

primrec IsInGoPath :: "nat \<Rightarrow> ('w, 'r, 'b) env \<Rightarrow> 'r Pkg list \<Rightarrow> 'r Pkg \<Rightarrow> bool res" where
  "IsInGoPath 0 E h p =
     (case parent p of Some a \<Rightarrow> Timeout | None \<Rightarrow> Return (prefix (gosrcpath E) (path p)))"
| "IsInGoPath (Suc n) E h p =
     (case parent p of
        Some a \<Rightarrow> bindR (deref h a) (IsInGoPath n E h)
      | None \<Rightarrow> Return (prefix (gosrcpath E) (path p)))"

definition FQN_body :: "('r Pkg \<Rightarrow> string res) \<Rightarrow> nat \<Rightarrow> ('w, 'r, 'b) env \<Rightarrow> 'r Pkg list \<Rightarrow> 'r Pkg \<Rightarrow>
    string res" where
  "FQN_body rec n E h p =
     bindR (IsInGoPath n E h p) (\<lambda>g.
       if g \<and> \<not> IsRoot p then
         bindR (Root n h p) (\<lambda>rt. bindR (rec rt) (\<lambda>s. Return (Join E [s, ''vendor'', Name p])))
       else if Name p = [] then Return ''.''
       else Return (Name p))"

primrec FQN :: "nat \<Rightarrow> ('w, 'r, 'b) env \<Rightarrow> 'r Pkg list \<Rightarrow> 'r Pkg \<Rightarrow> string res" where
  "FQN 0 E h p = FQN_body (\<lambda>q. Timeout) 0 E h p"
| "FQN (Suc n) E h p = FQN_body (FQN n E h) (Suc n) E h p"

text \<open>
  \<open>Meta\<close>: \<open>build.Import\<close> always gives a package, with partial information when it also
  gives an error.
\<close>

definition Meta :: "nat \<Rightarrow> ('w, 'r, 'b) env \<Rightarrow> ('w, 'r) state \<Rightarrow> nat \<Rightarrow>
    (('w, 'r) state \<times> build_Package) res" where
  "Meta n E st a =
     bindR (deref (heap st) a) (\<lambda>p.
       case meta p of
         Some m \<Rightarrow> Return (st, m)
       | None \<Rightarrow>
           bindR (FQN n E (heap st) p) (\<lambda>fqn.
             case build_Import E (world st) fqn (cwd E) of
               (m, err) \<Rightarrow>
                 (let st1 = (case err of
                               None \<Rightarrow> st
                             | Some (NoGoError s) \<Rightarrow> st
                             | Some (Error s) \<Rightarrow>
                                 logf st (''Unable to import package '' @ fqn @ '' with error '' @ s))
                  in Return (st1\<lparr>heap := (heap st1)[a := p\<lparr>meta := Some m\<rparr>]\<rparr>, m))))"

text \<open>\<open>Find\<close>: the loop over the node's own dependencies, then the parent's \<open>Find\<close>.\<close>

fun find_dep :: "'r Pkg list \<Rightarrow> nat list \<Rightarrow> string \<Rightarrow> nat option res" where
  "find_dep h [] name = Return None"
| "find_dep h (d # ds) name =
     bindR (deref h d) (\<lambda>q. if Name q = name then Return (Some d) else find_dep h ds name)"

primrec Find :: "nat \<Rightarrow> 'r Pkg list \<Rightarrow> 'r Pkg \<Rightarrow> string \<Rightarrow> nat option res" where
  "Find 0 h p name =
     bindR (find_dep h (Dependencies p) name) (\<lambda>r.
       case r of
         Some d \<Rightarrow> Return (Some d)
       | None \<Rightarrow> (case parent p of None \<Rightarrow> Return None | Some a \<Rightarrow> Timeout))"
| "Find (Suc n) h p name =
     bindR (find_dep h (Dependencies p) name) (\<lambda>r.
       case r of
         Some d \<Rightarrow> Return (Some d)
       | None \<Rightarrow>
           (case parent p of
              None \<Rightarrow> Return None
            | Some a \<Rightarrow> bindR (deref h a) (\<lambda>q. Find n h q name)))"

section \<open>Version Controller: backend resolution\<close>

definition RepoPath :: "('w, 'r, 'b) env \<Rightarrow> 'r Pkg \<Rightarrow> string" where
  "RepoPath E p =
     (let dir = (if length (installPath p) = 0 then installPath_g E else installPath p)
      in Join E [dir, Name p])"

text \<open>
  \<open>repoFromPath\<close>. \<open>NewRepo E w t\<close> stands for the constructor of backend kind \<open>t\<close>
  (\<open>vcs.NewGitRepo\<close>, \<open>vcs.NewBzrRepo\<close>, \<open>vcs.NewHgRepo\<close>, \<open>vcs.NewSvnRepo\<close>); a detected
  kind outside the four cases leaves \<open>repo\<close> nil and returns it.
\<close>

fun repoFromPath :: "('w, 'r, 'b) env \<Rightarrow> 'w \<Rightarrow> string list \<Rightarrow> 'r option" where
  "repoFromPath E w [] = None"
| "repoFromPath E w (pth # paths) =
     (case DetectVcsFromFS E w pth of
        (repoType, Some err) \<Rightarrow> repoFromPath E w paths
      | (repoType, None) \<Rightarrow>
          (case (case repoType of
                   Git \<Rightarrow> NewRepo E w Git [] pth
                 | Bzr \<Rightarrow> NewRepo E w Bzr [] pth
                 | Hg \<Rightarrow> NewRepo E w Hg [] pth
                 | Svn \<Rightarrow> NewRepo E w Svn [] pth
                 | NoVCS \<Rightarrow> (None, None)) of
             (r, Some err) \<Rightarrow> repoFromPath E w paths
           | (r, None) \<Rightarrow> r))"

text \<open>
  \<open>RepoURL\<close> has a value receiver: its body works on a copy of the node. The model returns
  the URL together with that copy as the body leaves it; what a caller does with the copy is
  the caller's business (Go drops it).
\<close>

definition RepoURL :: "('w, 'r, 'b) env \<Rightarrow> 'w \<Rightarrow> 'r Pkg \<Rightarrow> (string \<times> 'r Pkg) res" where
  "RepoURL E w p =
     (if URL p \<noteq> [] then Return (URL p, p)
      else
        (case repoFromPath E w [RepoPath E p, Join E [gopath E, ''src'', Name p]] of
           Some r \<Rightarrow> Return (repo_Remote E r, p)
         | None \<Rightarrow>
             (let parts = strings_Split (Name p) CHR ''/'' in
              bindR (at parts 0) (\<lambda>host.
                if host = ''github.com'' then
                  bindR (slice parts 1 3) (\<lambda>ps.
                    Return (''git@github.com:'' @ strings_Join ps ''/'' @ ''.git'', p))
                else if host = ''golang.org'' then
                  bindR (at parts 2) (\<lambda>p2.
                    Return (''git@github.com:golang/'' @ p2 @ ''.git'', p))
                else if host = ''gopkg.in'' then
                  bindR (at parts 2) (\<lambda>p2.
                    let nameParts = strings_Split p2 CHR ''.'' in
                    bindR (slice nameParts 0 (length nameParts - 1)) (\<lambda>ns.
                      let name = strings_Join ns ''.'' in
                      bindR (at nameParts (length nameParts - 1)) (\<lambda>v.
                        let p' = p\<lparr>Version := v\<rparr> in
                        bindR (at parts 1) (\<lambda>p1.
                          Return (''git@github.com:'' @ p1 @ ''/'' @ name @ ''.git'', p')))))
                else Return ([], p)))))"

definition RepoType :: "('w, 'r, 'b) env \<Rightarrow> 'w \<Rightarrow> 'r Pkg \<Rightarrow> vcs_Type res" where
  "RepoType E w p =
     (case repoFromPath E w [RepoPath E p, Join E [gopath E, ''src'', Name p]] of
        Some r \<Rightarrow> Return (repo_Vcs E r)
      | None \<Rightarrow>
          (let parts = strings_Split (Name p) CHR ''/'' in
           bindR (at parts 0) (\<lambda>host.
             if host = ''github.com'' then Return Git
             else if host = ''golang.org'' then Return Git
             else if host = ''gopkg.in'' then Return Git
             else Return NoVCS)))"

text \<open>
  \<open>VCS\<close> (pointer receiver): the memoised handle, or a new one from the constructor of the
  node's backend kind. The copy that \<open>RepoURL\<close> worked on is dropped here.
\<close>

definition VCS :: "('w, 'r, 'b) env \<Rightarrow> ('w, 'r) state \<Rightarrow> nat \<Rightarrow>
    (('w, 'r) state \<times> 'r option \<times> error option) res" where
  "VCS E st a =
     bindR (deref (heap st) a) (\<lambda>p.
       case repo p of
         Some r \<Rightarrow> Return (st, Some r, None)
       | None \<Rightarrow>
           bindR (RepoType E (world st) p) (\<lambda>repoType.
             bindR (RepoURL E (world st) p) (\<lambda>(repoURL, copy).
               let repoPath = RepoPath E p in
               (case (case repoType of
                        Git \<Rightarrow> NewRepo E (world st) Git repoURL repoPath
                      | Bzr \<Rightarrow> NewRepo E (world st) Bzr repoURL repoPath
                      | Hg \<Rightarrow> NewRepo E (world st) Hg repoURL repoPath
                      | Svn \<Rightarrow> NewRepo E (world st) Svn repoURL repoPath
                      | NoVCS \<Rightarrow> (None, None)) of
                  (r, err) \<Rightarrow> Return (st\<lparr>heap := (heap st)[a := p\<lparr>repo := r\<rparr>]\<rparr>, r, err)))))"

section \<open>Manifest Store\<close>

definition MarshalYAML :: "'r Pkg \<Rightarrow> 'r Pkg" where
  "MarshalYAML p =
     (let copy = p in
      if hasManifest copy \<and> parent copy \<noteq> None then copy\<lparr>Dependencies := []\<rparr> else copy)"

definition omitempty :: "string \<Rightarrow> string option" where
  "omitempty s = (if s = [] then None else Some s)"

text \<open>
  What \<open>yaml.Marshal\<close> makes of a node: it calls the \<open>MarshalYAML\<close> hook, writes the tagged
  fields of the value the hook returns, leaves out the empty ones, and does the same for
  every node of \<open>deps\<close>.
\<close>

fun marshal_seq :: "('r Pkg \<Rightarrow> ydoc res) \<Rightarrow> 'r Pkg list \<Rightarrow> nat list \<Rightarrow> ydoc list res" where
  "marshal_seq rec h [] = Return []"
| "marshal_seq rec h (d # ds) =
     bindR (deref h d) (\<lambda>q.
       bindR (rec q) (\<lambda>x.
         bindR (marshal_seq rec h ds) (\<lambda>xs. Return (x # xs))))"

definition marshal_body :: "('r Pkg \<Rightarrow> ydoc res) \<Rightarrow> 'r Pkg list \<Rightarrow> 'r Pkg \<Rightarrow> ydoc res" where
  "marshal_body rec h p =
     (let c = MarshalYAML p in
      bindR (marshal_seq rec h (Dependencies c)) (\<lambda>ds.
        Return (YDoc (omitempty (Name c)) (omitempty (Version c)) (omitempty (Reference c))
                  (if ds = [] then None else Some ds) (omitempty (URL c)))))"

primrec marshal_doc :: "nat \<Rightarrow> 'r Pkg list \<Rightarrow> 'r Pkg \<Rightarrow> ydoc res" where
  "marshal_doc 0 h p = marshal_body (\<lambda>q. Timeout) h p"
| "marshal_doc (Suc n) h p = marshal_body (marshal_doc n h) h p"

text \<open>
  What \<open>yaml.Unmarshal\<close> does with a document and the node at \<open>b\<close>: a field that is present
  overwrites the node's, an absent one leaves it; every document of \<open>deps\<close> is decoded into
  a new zero node, and the list of the new nodes replaces \<open>Dependencies\<close>.
\<close>

fun decode_into :: "ydoc \<Rightarrow> 'r Pkg list \<Rightarrow> nat \<Rightarrow> 'r Pkg list"
  and decode_seq :: "ydoc list \<Rightarrow> 'r Pkg list \<Rightarrow> 'r Pkg list \<times> nat list" where
  "decode_into (YDoc pkg ver ref deps url) h b =
     (case (case deps of
              None \<Rightarrow> (h, None)
            | Some ds \<Rightarrow> (case decode_seq ds h of (h', cs) \<Rightarrow> (h', Some cs))) of
        (h1, cs) \<Rightarrow>
          h1[b := (h1 ! b)\<lparr>
            Name := (case pkg of None \<Rightarrow> Name (h1 ! b) | Some s \<Rightarrow> s),
            Version := (case ver of None \<Rightarrow> Version (h1 ! b) | Some s \<Rightarrow> s),
            Reference := (case ref of None \<Rightarrow> Reference (h1 ! b) | Some s \<Rightarrow> s),
            Dependencies := (case cs of None \<Rightarrow> Dependencies (h1 ! b) | Some l \<Rightarrow> l),
            URL := (case url of None \<Rightarrow> URL (h1 ! b) | Some s \<Rightarrow> s)\<rparr>])"
| "decode_seq [] h = (h, [])"
| "decode_seq (d # ds) h =
     (let c = length h;
          h1 = decode_into d (h @ [zero_Pkg]) c
      in case decode_seq ds h1 of (h2, cs) \<Rightarrow> (h2, c # cs))"

text \<open>\<open>updateDepsParents\<close> (pointer receiver).\<close>

fun updateDepsParents_loop :: "('r Pkg list \<Rightarrow> nat \<Rightarrow> 'r Pkg list res) \<Rightarrow> nat \<Rightarrow> 'r Pkg list \<Rightarrow>
    nat list \<Rightarrow> 'r Pkg list res" where
  "updateDepsParents_loop rec a h [] = Return h"
| "updateDepsParents_loop rec a h (d # ds) =
     bindR (deref h d) (\<lambda>q.
       bindR (rec (h[d := q\<lparr>parent := Some a\<rparr>]) d) (\<lambda>h'.
         updateDepsParents_loop rec a h' ds))"

primrec updateDepsParents :: "nat \<Rightarrow> 'r Pkg list \<Rightarrow> nat \<Rightarrow> 'r Pkg list res" where
  "updateDepsParents 0 h a =
     bindR (deref h a) (\<lambda>p. updateDepsParents_loop (\<lambda>h' d. Timeout) a h (Dependencies p))"
| "updateDepsParents (Suc n) h a =
     bindR (deref h a) (\<lambda>p. updateDepsParents_loop (updateDepsParents n) a h (Dependencies p))"

text \<open>
  \<open>LoadManifest\<close> (pointer receiver). A document that the codec rejects is taken to leave
  the node as it was.
\<close>

definition LoadManifest :: "nat \<Rightarrow> ('w, 'r, 'b) env \<Rightarrow> ('w, 'r) state \<Rightarrow> nat \<Rightarrow>
    (('w, 'r) state \<times> error option) res" where
  "LoadManifest n E st a =
     bindR (deref (heap st) a) (\<lambda>p.
       let p1 = p\<lparr>hasManifest := False\<rparr>;
           p2 = (if length (manifestFile p1) = 0 then p1\<lparr>manifestFile := ''vgo.yaml''\<rparr> else p1);
           st1 = st\<lparr>heap := (heap st)[a := p2]\<rparr>
       in case ReadFile E (world st1) (Join E [path p2, manifestFile p2]) of
            Inl err \<Rightarrow> Return (st1, Some err)
          | Inr data \<Rightarrow>
              (case yaml_decode E data of
                 Inl err \<Rightarrow> Return (st1, Some err)
               | Inr doc \<Rightarrow>
                   (let h2 = decode_into doc (heap st1) a;
                        h3 = h2[a := (h2 ! a)\<lparr>hasManifest := True\<rparr>]
                    in bindR (updateDepsParents n h3 a) (\<lambda>h4.
                         Return (st1\<lparr>heap := h4\<rparr>, None)))))"

text \<open>\<open>SaveManifest\<close> (value receiver: it takes the node, and changes only the world).\<close>

definition SaveManifest :: "nat \<Rightarrow> ('w, 'r, 'b) env \<Rightarrow> ('w, 'r) state \<Rightarrow> 'r Pkg \<Rightarrow>
    (('w, 'r) state \<times> error option) res" where
  "SaveManifest n E st p =
     bindR (marshal_doc n (heap st) p) (\<lambda>doc.
       case yaml_encode E doc of
         Inl err \<Rightarrow> Return (st, Some err)
       | Inr data \<Rightarrow>
           (case WriteFile E (world st) (Join E [path p, manifestFile p]) data of
              (Some err, w') \<Rightarrow> Return (st\<lparr>world := w'\<rparr>, Some err)
            | (None, w') \<Rightarrow> Return (st\<lparr>world := w'\<rparr>, None)))"

section \<open>Install Orchestrator, Checkout and the Graph Builder\<close>

text \<open>
  The part of \<open>Checkout\<close> between \<open>p.Lock()\<close> and the last \<open>p.Unlock()\<close>, for a node at \<open>a\<close>
  with backend \<open>r\<close>. The result says whether \<open>Checkout\<close> has returned from inside it, and
  carries the value of \<open>err\<close>.
\<close>

definition Checkout_locked :: "('w, 'r, 'b) env \<Rightarrow> ('w, 'r) state \<Rightarrow> nat \<Rightarrow> 'r \<Rightarrow>
    ('w, 'r) state \<times> bool \<times> error option" where
  "Checkout_locked E st a r =
     (let p = heap st ! a;
          version = (if Reference p \<noteq> [] then Reference p else Version p);
          ins = repo_CheckLocal E (world st) r;
          st1 = st\<lparr>heap := (heap st)[a := p\<lparr>installed := ins\<rparr>]\<rparr>
      in case (if ins then
                 (if repo_IsReference E (world st1) r version
                  then (logf st1 (''OK '' @ Name p), Some None)
                  else (case repo_UpdateVersion E (world st1) r version of
                          (err, w') \<Rightarrow>
                            (let st2 = st1\<lparr>world := w', trace := trace st1 @ [UpdateVersion r version]\<rparr>
                             in case err of
                                  Some e \<Rightarrow>
                                    (logf st2 (''Checkout failed with error '' @ Error_text e),
                                     Some (Some e))
                                | None \<Rightarrow> (st2, None))))
               else (st1, None)) of
           (st3, Some e) \<Rightarrow> (st3, True, e)
         | (st3, None) \<Rightarrow>
             (case repo_Version E (world st3) r of
                (v, err) \<Rightarrow>
                  (st3\<lparr>heap := (heap st3)[a := (heap st3 ! a)\<lparr>Reference := v,
                       path := repo_LocalPath E r\<rparr>]\<rparr>, False, err)))"

text \<open>
  \<open>Checkout\<close>, with the Graph Builder it falls back to as the parameter \<open>init\<close>.
\<close>

definition Checkout_with :: "(('w, 'r) state \<Rightarrow> nat \<Rightarrow> build_Package \<Rightarrow> ('w, 'r) state res) \<Rightarrow>
    nat \<Rightarrow> ('w, 'r, 'b) env \<Rightarrow> ('w, 'r) state \<Rightarrow> nat \<Rightarrow> (('w, 'r) state \<times> error option) res" where
  "Checkout_with init n E st a =
     bindR (deref (heap st) a) (\<lambda>p.
       case parent p of
         None \<Rightarrow> Return (st, None)
       | Some pa \<Rightarrow>
           bindR (VCS E st a) (\<lambda>(st1, rp, err).
             case err of
               Some e \<Rightarrow> Return (st1, Some e)
             | None \<Rightarrow>
                 (case rp of
                    None \<Rightarrow> Panic ''nil pointer dereference''
                  | Some r \<Rightarrow>
                      (let st2 = (if repo_IsDirty E (world st1) r
                                  then logf st1 (''Skipping checkout for '' @ Name p @
                                         ''. Dependency is dirty.'')
                                  else st1)
                       in case Checkout_locked E st2 a r of
                            (st3, True, err3) \<Rightarrow> Return (st3, err3)
                          | (st3, False, err3) \<Rightarrow>
                              bindR (LoadManifest n E st3 a) (\<lambda>(st4, lerr).
                                bindR (deref (heap st4) a) (\<lambda>p4.
                                  if \<not> hasManifest p4 then
                                    (case parent p4 of
                                       None \<Rightarrow> Panic ''nil pointer dereference''
                                     | Some pa4 \<Rightarrow>
                                         bindR (Meta n E st4 pa4) (\<lambda>(st5, m).
                                           bindR (init st5 pa4 m) (\<lambda>st6.
                                             Return (st6, err3))))
                                  else Return (st4, err3)))))))"

text \<open>The part of \<open>Install\<close> between \<open>p.Lock()\<close> and \<open>p.Unlock()\<close>; \<open>err\<close> comes from \<open>VCS\<close>.\<close>

definition Install_locked :: "('w, 'r, 'b) env \<Rightarrow> ('w, 'r) state \<Rightarrow> nat \<Rightarrow> 'r \<Rightarrow> error option \<Rightarrow>
    ('w, 'r) state \<times> error option" where
  "Install_locked E st a r err =
     (let p = heap st ! a;
          ins = repo_CheckLocal E (world st) r;
          p1 = p\<lparr>installed := ins, path := repo_LocalPath E r\<rparr>;
          st1 = st\<lparr>heap := (heap st)[a := p1]\<rparr>
      in if \<not> ins then
           (let st2 = logf st1 (''Installing '' @ Name p1) in
            case repo_Get E (world st2) r of
              (err', w') \<Rightarrow>
                (let st3 = st2\<lparr>world := w', trace := trace st2 @ [Get r]\<rparr>
                 in case err' of
                      Some e \<Rightarrow>
                        (logf st3 (''Failed to install '' @ Name p1 @ '' with error '' @
                           Error_text e @ '', '' @ path p1), Some e)
                    | None \<Rightarrow> (st3, None)))
         else (st1, err))"

definition Install_with :: "(('w, 'r) state \<Rightarrow> nat \<Rightarrow> build_Package \<Rightarrow> ('w, 'r) state res) \<Rightarrow>
    nat \<Rightarrow> ('w, 'r, 'b) env \<Rightarrow> ('w, 'r) state \<Rightarrow> nat \<Rightarrow> (('w, 'r) state \<times> error option) res" where
  "Install_with init n E st a =
     bindR (deref (heap st) a) (\<lambda>p.
       case parent p of
         None \<Rightarrow> Return (st, None)
       | Some pa \<Rightarrow>
           bindR (VCS E st a) (\<lambda>(st1, rp, err).
             case rp of
               None \<Rightarrow>
                 Return (st1, Some (Error (''Could not resolve repo for '' @ Name p @
                   '' with error '' @ (case err of None \<Rightarrow> ''%!s(<nil>)'' | Some e \<Rightarrow> Error_text e))))
             | Some r \<Rightarrow>
                 (case Install_locked E st1 a r err of
                    (st2, err2) \<Rightarrow>
                      bindR (Checkout_with init n E st2 a) (\<lambda>(st3, cerr).
                        Return (st3, err2)))))"

text \<open>
  \<open>Init\<close>. The loop creates the new nodes; every \<open>go func() { dep.Install() ... }\<close> is kept
  in \<open>spawned\<close>, and the model runs the spawned installs one after the other, in the order
  they were spawned, where the source waits for them (\<open>wg.Wait()\<close>).
\<close>

fun Init_loop :: "nat \<Rightarrow> ('w, 'r, 'b) env \<Rightarrow> ('w, 'r) state \<Rightarrow> nat \<Rightarrow> string list \<Rightarrow> nat list \<Rightarrow>
    (('w, 'r) state \<times> nat list) res" where
  "Init_loop n E st a [] spawned = Return (st, spawned)"
| "Init_loop n E st a (i # names) spawned =
     bindR (deref (heap st) a) (\<lambda>p.
       let name = repoName E i in
       if prefix (Name p) name then Init_loop n E st a names spawned
       else
         bindR (Find n (heap st) p name) (\<lambda>dep.
           case dep of
             Some d \<Rightarrow> Init_loop n E st a names spawned
           | None \<Rightarrow>
               (let d = length (heap st);
                    h1 = heap st @ [(NewPkg name)\<lparr>parent := Some a\<rparr>];
                    h2 = h1[a := (h1 ! a)\<lparr>Dependencies := Dependencies (h1 ! a) @ [d]\<rparr>]
                in Init_loop n E (st\<lparr>heap := h2\<rparr>) a names (spawned @ [d]))))"

fun Init_wait :: "(('w, 'r) state \<Rightarrow> nat \<Rightarrow> (('w, 'r) state \<times> error option) res) \<Rightarrow>
    ('w, 'r) state \<Rightarrow> nat list \<Rightarrow> ('w, 'r) state res" where
  "Init_wait install st [] = Return st"
| "Init_wait install st (d # ds) =
     bindR (install st d) (\<lambda>(st', err). Init_wait install st' ds)"

definition Init_body :: "(('w, 'r) state \<Rightarrow> nat \<Rightarrow> (('w, 'r) state \<times> error option) res) \<Rightarrow>
    nat \<Rightarrow> ('w, 'r, 'b) env \<Rightarrow> ('w, 'r) state \<Rightarrow> nat \<Rightarrow> build_Package \<Rightarrow> ('w, 'r) state res" where
  "Init_body install n E st a m =
     bindR (deref (heap st) a) (\<lambda>p.
       let p1 = p\<lparr>path := Dir m\<rparr> in
       bindR (IsInGoPath n E (heap st) p1) (\<lambda>g.
         let p2 = (if g then p1\<lparr>Name := repoName E (ImportPath m)\<rparr> else p1);
             st1 = st\<lparr>heap := (heap st)[a := p2]\<rparr>
         in bindR (resolveImportsRecursive n E (world st1) (Name p2) (Imports m)) (\<lambda>names.
              bindR (Init_loop n E st1 a names []) (\<lambda>(st2, spawned).
                Init_wait install st2 spawned))))"

text \<open>
  The three functions call each other: \<open>Init\<close> installs, \<open>Install\<close> checks out, \<open>Checkout\<close>
  falls back to \<open>Init\<close>. Fuel \<open>n\<close> allows \<open>n\<close> nested runs of \<open>Init\<close>.
\<close>

primrec Init :: "nat \<Rightarrow> ('w, 'r, 'b) env \<Rightarrow> ('w, 'r) state \<Rightarrow> nat \<Rightarrow> build_Package \<Rightarrow>
    ('w, 'r) state res" where
  "Init 0 E st a m = Init_body (\<lambda>st' d. Timeout) 0 E st a m"
| "Init (Suc n) E st a m = Init_body (Install_with (Init n E) n E) (Suc n) E st a m"

definition Checkout :: "nat \<Rightarrow> ('w, 'r, 'b) env \<Rightarrow> ('w, 'r) state \<Rightarrow> nat \<Rightarrow>
    (('w, 'r) state \<times> error option) res" where
  "Checkout n E st a = Checkout_with (Init n E) n E st a"

definition Install :: "nat \<Rightarrow> ('w, 'r, 'b) env \<Rightarrow> ('w, 'r) state \<Rightarrow> nat \<Rightarrow>
    (('w, 'r) state \<times> error option) res" where
  "Install n E st a = Install_with (Init n E) n E st a"

section \<open>Dependency trees\<close>

text \<open>
  What a manifest is about: the tree below a node, with the four persistent fields of every
  node, whether the node owns a manifest and is not the root (\<open>t_owns\<close>, the condition of
  \<open>MarshalYAML\<close>), and the trees of its dependencies in order.
\<close>

datatype ptree = PTree (t_name: string) (t_ver: string) (t_ref: string) (t_url: string)
  (t_owns: bool) (t_deps: "ptree list")

text \<open>
  \<open>subtree lo chk h p t\<close>: in the heap \<open>h\<close> the node \<open>p\<close> and everything below it is the tree
  \<open>t\<close>, and every address below \<open>p\<close> is at least \<open>lo\<close>. With \<open>chk\<close> the ownership flags are
  compared too, without it only the persistent fields.
\<close>

fun subtree :: "nat \<Rightarrow> bool \<Rightarrow> 'r Pkg list \<Rightarrow> 'r Pkg \<Rightarrow> ptree \<Rightarrow> bool"
  and subtrees :: "nat \<Rightarrow> bool \<Rightarrow> 'r Pkg list \<Rightarrow> nat list \<Rightarrow> ptree list \<Rightarrow> bool" where
  "subtree lo chk h p (PTree n v r u ow cs) =
     (Name p = n \<and> Version p = v \<and> Reference p = r \<and> URL p = u \<and>
      (chk \<longrightarrow> (hasManifest p \<and> parent p \<noteq> None) = ow) \<and>
      subtrees lo chk h (Dependencies p) cs)"
| "subtrees lo chk h [] [] = True"
| "subtrees lo chk h (d # ds) (c # cs) =
     (lo \<le> d \<and> d < length h \<and> subtree lo chk h (h ! d) c \<and> subtrees lo chk h ds cs)"
| "subtrees lo chk h [] (c # cs) = False"
| "subtrees lo chk h (d # ds) [] = False"

definition describes :: "'r Pkg list \<Rightarrow> 'r Pkg \<Rightarrow> ptree \<Rightarrow> bool" where
  "describes h p t = subtree 0 True h p t"

definition persists :: "'r Pkg list \<Rightarrow> 'r Pkg \<Rightarrow> ptree \<Rightarrow> bool" where
  "persists h p t = subtree 0 False h p t"

text \<open>What is left of a tree when the dependencies of every owning node are cut off.\<close>

fun prune :: "ptree \<Rightarrow> ptree" where
  "prune (PTree n v r u ow cs) = PTree n v r u ow (if ow then [] else map prune cs)"

fun owner_free :: "ptree \<Rightarrow> bool" where
  "owner_free (PTree n v r u ow cs) = (\<not> ow \<and> list_all owner_free cs)"

fun height :: "ptree \<Rightarrow> nat" where
  "height (PTree n v r u ow cs) = foldr (\<lambda>c m. max (Suc (height c)) m) cs 0"

text \<open>A node into which nothing persistent has been written yet.\<close>

definition blank :: "'r Pkg \<Rightarrow> bool" where
  "blank p = (Name p = [] \<and> Version p = [] \<and> Reference p = [] \<and> URL p = [] \<and>
     Dependencies p = [])"

text \<open>The document of a tree, and the tree a document describes.\<close>

fun doc_of :: "ptree \<Rightarrow> ydoc" where
  "doc_of (PTree n v r u ow cs) =
     YDoc (omitempty n) (omitempty v) (omitempty r)
       (if cs = [] then None else Some (map doc_of cs)) (omitempty u)"

fun tree_of_doc :: "ydoc \<Rightarrow> ptree" where
  "tree_of_doc (YDoc pkg ver ref deps url) =
     PTree (case pkg of None \<Rightarrow> [] | Some s \<Rightarrow> s) (case ver of None \<Rightarrow> [] | Some s \<Rightarrow> s)
       (case ref of None \<Rightarrow> [] | Some s \<Rightarrow> s) (case url of None \<Rightarrow> [] | Some s \<Rightarrow> s) False
       (case deps of None \<Rightarrow> [] | Some ds \<Rightarrow> map tree_of_doc ds)"

text \<open>Two nodes with the same persistent fields; two heaps with such nodes at every address.\<close>

definition same_fields :: "'r Pkg \<Rightarrow> 'r Pkg \<Rightarrow> bool" where
  "same_fields p p' = (Name p' = Name p \<and> Version p' = Version p \<and> Reference p' = Reference p \<and>
     URL p' = URL p \<and> Dependencies p' = Dependencies p)"

definition same_persistent :: "'r Pkg list \<Rightarrow> 'r Pkg list \<Rightarrow> bool" where
  "same_persistent h h' = (length h' = length h \<and> (\<forall>x<length h. same_fields (h ! x) (h' ! x)))"

section \<open>Properties of the dependency graph\<close>







text \<open>Nodes, and heaps, that differ in neither name nor links nor cached metadata.\<close>

definition same_links :: "'r Pkg \<Rightarrow> 'r Pkg \<Rightarrow> bool" where
  "same_links p p' = (parent p' = parent p \<and> Dependencies p' = Dependencies p \<and>
     Name p' = Name p \<and> meta p' = meta p)"

definition links_kept :: "'r Pkg list \<Rightarrow> 'r Pkg list \<Rightarrow> bool" where
  "links_kept h h' = (length h' = length h \<and> (\<forall>x<length h. same_links (h ! x) (h' ! x)))"

text \<open>
  From \<open>st\<close> to \<open>st'\<close> the heap has only grown, the nodes below address \<open>L\<close> have kept
  their installed flag, and the log has only been added to.
\<close>

definition installed_kept :: "nat \<Rightarrow> ('w, 'r) state \<Rightarrow> ('w, 'r) state \<Rightarrow> bool" where
  "installed_kept L st st' =
     (length (heap st) \<le> length (heap st') \<and>
      (\<forall>x<L. installed (heap st' ! x) = installed (heap st ! x)) \<and>
      prefix (trace st) (trace st'))"

section \<open>A simulated environment\<close>

text \<open>
  A small environment to run the model in. The world is the list of files on disk, latest
  first; a backend handle is its local path, and a working copy is there when its \<open>.git\<close>
  is. Every backend is Git, a fetch succeeds and creates \<open>.git\<close>, no package can be imported
  yet, no working copy is at the revision asked for, and the codec is the identity on
  documents. The scenarios below change single fields of it.
\<close>

definition no_doc :: ydoc where
  "no_doc = YDoc None None None None None"

definition sim :: "((string \<times> ydoc) list, string, ydoc) env" where
  "sim = \<lparr>vendoring = True, cwd = ''/w'', gopath = ''/go'', gosrcpath = ''/go/src'',
     installPath_g = ''/w/vendor'',
     repoName = (\<lambda>i. i),
     IsNative = (\<lambda>i. i = ''fmt''),
     build_Import = (\<lambda>w i d. (\<lparr>Dir = [], ImportPath = i, Imports = []\<rparr>,
                                 Some (Error ''cannot find package''))),
     Join = (\<lambda>xs. strings_Join xs ''/''),
     DetectVcsFromFS = (\<lambda>w p. if map_of w (p @ ''/.git'') = None
                                then (NoVCS, Some (Error ''cannot detect VCS''))
                                else (Git, None)),
     NewRepo = (\<lambda>w t remote local. (Some local, None)),
     repo_Vcs = (\<lambda>r. Git),
     repo_Remote = (\<lambda>r. []),
     repo_LocalPath = (\<lambda>r. r),
     repo_CheckLocal = (\<lambda>w r. map_of w (r @ ''/.git'') \<noteq> None),
     repo_IsDirty = (\<lambda>w r. False),
     repo_IsReference = (\<lambda>w r v. False),
     repo_Version = (\<lambda>w r. (''c0ffee'', None)),
     repo_Get = (\<lambda>w r. (None, (r @ ''/.git'', no_doc) # w)),
     repo_UpdateVersion = (\<lambda>w r v. (None, w)),
     ReadFile = (\<lambda>w p. case map_of w p of None \<Rightarrow> Inl (Error ''no such file'') | Some d \<Rightarrow> Inr d),
     WriteFile = (\<lambda>w p d. (None, (p, d) # w)),
     yaml_encode = Inr,
     yaml_decode = Inr\<rparr>"

text \<open>Vendoring switched off.\<close>

definition sim_novendor :: "((string \<times> ydoc) list, string, ydoc) env" where
  "sim_novendor = sim\<lparr>vendoring := False\<rparr>"


section \<open>Scenarios\<close>

text \<open>
  Scenarios: a root \<open>github.com/a/a\<close> in \<open>/w\<close> with one dependency \<open>github.com/b/b\<close>
  pinned to \<open>v1\<close>, checked out in \<open>st_ab\<close> and not yet fetched in \<open>st_ab_absent\<close>, and
  variations of the simulated backend.
\<close>

definition root_a :: "string Pkg" where
  "root_a = (NewPkg ''github.com/a/a'')\<lparr>path := ''/w'', Dependencies := [1],
     meta := Some \<lparr>Dir = ''/w'', ImportPath = ''github.com/a/a'',
       Imports = [''github.com/b/b'']\<rparr>\<rparr>"

definition dep_b :: "string Pkg" where
  "dep_b = (NewPkg ''github.com/b/b'')\<lparr>parent := Some 0, Reference := ''v1''\<rparr>"

definition st_ab :: "((string \<times> ydoc) list, string) state" where
  "st_ab = \<lparr>heap = [root_a, dep_b], world = [(''/w/vendor/github.com/b/b/.git'', no_doc)],
     trace = []\<rparr>"

definition st_ab_absent :: "((string \<times> ydoc) list, string) state" where
  "st_ab_absent = \<lparr>heap = [root_a, dep_b], world = [], trace = []\<rparr>"

text \<open>The working copies are locally modified.\<close>

definition sim_dirty :: "((string \<times> ydoc) list, string, ydoc) env" where
  "sim_dirty = sim\<lparr>repo_IsDirty := (\<lambda>w r. True)\<rparr>"


text \<open>The backend knows no revision it is asked for.\<close>

definition sim_badref :: "((string \<times> ydoc) list, string, ydoc) env" where
  "sim_badref = sim\<lparr>repo_UpdateVersion := (\<lambda>w r v. (Some (Error ''unknown revision''), w))\<rparr>"

text \<open>Nothing can be fetched, and a backend without a working copy reports no version.\<close>

definition sim_fetchfail :: "((string \<times> ydoc) list, string, ydoc) env" where
  "sim_fetchfail = sim\<lparr>repo_Get := (\<lambda>w r. (Some (Error ''network unreachable''), w)),
     repo_Version := (\<lambda>w r. ([], Some (Error ''not a repository'')))\<rparr>"

text \<open>The state in which \<open>Install\<close> calls \<open>Checkout\<close> for \<open>github.com/b/b\<close> after the failed fetch.\<close>

definition st_ab_fetch_failed :: "((string \<times> ydoc) list, string) state" where
  "st_ab_fetch_failed =
     fst (Install_locked sim_fetchfail (fst (val (VCS sim_fetchfail st_ab_absent 1))) 1
       ''/w/vendor/github.com/b/b'' None)"

text \<open>A dependency named by the gopkg.in convention, not checked out anywhere.\<close>

definition dep_gopkg :: "string Pkg" where
  "dep_gopkg = (NewPkg ''gopkg.in/user/pkg.v3'')\<lparr>parent := Some 0\<rparr>"

definition st_gopkg :: "((string \<times> ydoc) list, string) state" where
  "st_gopkg = \<lparr>heap = [root_a, dep_gopkg], world = [], trace = []\<rparr>"

text \<open>
  A root that has its manifest file name, with \<open>github.com/b/b\<close> below it; in the second
  state \<open>github.com/b/b\<close> owns a manifest and has a dependency \<open>github.com/c/c\<close> of its own.
  The last node of either heap is the root of a later run in the same directory, with
  nothing loaded yet.
\<close>

definition root_m :: "string Pkg" where
  "root_m = root_a\<lparr>manifestFile := ''vgo.yaml''\<rparr>"

definition dep_b_owner :: "string Pkg" where
  "dep_b_owner = dep_b\<lparr>hasManifest := True, Dependencies := [2]\<rparr>"

definition dep_c :: "string Pkg" where
  "dep_c = (NewPkg ''github.com/c/c'')\<lparr>parent := Some 1, Version := ''~1.0.0''\<rparr>"

definition fresh_root :: "string Pkg" where
  "fresh_root = zero_Pkg\<lparr>path := ''/w''\<rparr>"

definition st_plain :: "((string \<times> ydoc) list, string) state" where
  "st_plain = \<lparr>heap = [root_m, dep_b, fresh_root], world = [], trace = []\<rparr>"

definition st_owner :: "((string \<times> ydoc) list, string) state" where
  "st_owner = \<lparr>heap = [root_m, dep_b_owner, dep_c, fresh_root], world = [], trace = []\<rparr>"

definition tree_plain :: ptree where
  "tree_plain = PTree ''github.com/a/a'' [] [] [] False
     [PTree ''github.com/b/b'' [] ''v1'' [] False []]"

definition tree_owner :: ptree where
  "tree_owner = PTree ''github.com/a/a'' [] [] [] False
     [PTree ''github.com/b/b'' [] ''v1'' [] True
        [PTree ''github.com/c/c'' ''~1.0.0'' [] [] False []]]"

text \<open>The same two states after the root has been saved.\<close>

definition st_plain_saved :: "((string \<times> ydoc) list, string) state" where
  "st_plain_saved = fst (val (SaveManifest 1 sim st_plain root_m))"

definition st_owner_saved :: "((string \<times> ydoc) list, string) state" where
  "st_owner_saved = fst (val (SaveManifest 2 sim st_owner root_m))"







text \<open>What \<open>Install\<close> leaves of \<open>st_ab_absent\<close> when nothing can be fetched.\<close>

definition st_ab_not_fetched :: "((string \<times> ydoc) list, string) state" where
  "st_ab_not_fetched =
     \<lparr>heap = [root_a,
              dep_b\<lparr>repo := Some ''/w/vendor/github.com/b/b'', installed := False,
                path := ''/w/vendor/github.com/b/b'', Reference := [],
                manifestFile := ''vgo.yaml''\<rparr>],
      world = [],
      trace = [Logf ''Installing github.com/b/b'', Get ''/w/vendor/github.com/b/b'',
               Logf ''Failed to install github.com/b/b with error network unreachable, /w/vendor/github.com/b/b'']\<rparr>"

section \<open>Import Resolver: results\<close>

lemma resolve_loop_no_vendoring:
  "\<not> vendoring E \<Longrightarrow> resolve_loop rec E w pth imps r = Return r"
  by (induction imps) simp_all








text \<open>
  C6. With vendoring disabled the Import Resolver skips every import and never descends:
  the first loop leaves the accumulated slice as it is without ever making the recursive
  call (whatever that call would do), so the resolver returns the empty list with any fuel,
  also with none.
\<close>

theorem C6_vendoring_gate: "\<not> vendoring E \<Longrightarrow>
    resolveImportsRecursive n E w pth imps = Return [] \<and>
    resolve_loop rec E w pth imps r = Return r"
  by (cases n) (simp_all add: resolve_body_def resolve_loop_no_vendoring)

theorem C6_vendoring_gate_witness: "\<not> vendoring sim_novendor \<and>
    resolveImportsRecursive 0 sim_novendor [] ''a'' [''b'', ''fmt''] = Return [] \<and>
    resolve_loop (\<lambda>i is. Panic ''descent'') sim_novendor [] ''a'' [''b'', ''fmt''] [''x''] =
      Return [''x'']"
  using C6_vendoring_gate [of sim_novendor 0 "[]" "''a''" "[''b'', ''fmt'']"
      "\<lambda>i is. Panic ''descent''" "[''x'']"]
  by (simp add: sim_novendor_def sim_def)



section \<open>Install and Checkout: results\<close>

lemmas sim_simps = Let_def sim_def NewPkg_def zero_Pkg_def deref_def at_def slice_def logf_def
  RepoPath_def RepoType_def RepoURL_def VCS_def Checkout_def Checkout_with_def Checkout_locked_def
  Install_def Install_with_def Install_locked_def LoadManifest_def Meta_def Init_body_def
  resolve_body_def FQN_body_def MarshalYAML_def omitempty_def marshal_body_def SaveManifest_def
  root_a_def dep_b_def st_ab_def st_ab_absent_def no_doc_def

lemma bindR_Return_iff:
  "bindR m f = Return y \<longleftrightarrow> (\<exists>x. m = Return x \<and> f x = Return y)"
  by (cases m) auto

lemma deref_Return [simp]: "a < length h \<Longrightarrow> deref h a = Return (h ! a)"
  by (simp add: deref_def)

lemma deref_Return_iff: "deref h a = Return p \<longleftrightarrow> a < length h \<and> p = h ! a"
  by (auto simp: deref_def)

lemma VCS_cached:
  "a < length (heap st) \<Longrightarrow> repo (heap st ! a) = Some r \<Longrightarrow> VCS E st a = Return (st, Some r, None)"
  by (simp add: VCS_def)

lemma case_prod_Return:
  "(case X of (r, err) \<Rightarrow> Return (g r, r, err)) = Return (s, rp, e) \<Longrightarrow> s = g rp"
  by (cases X) auto

lemma VCS_Return:
  assumes "VCS E st a = Return (st1, rp, err)"
  shows "a < length (heap st) \<and> st1 = st\<lparr>heap := (heap st)[a := (heap st ! a)\<lparr>repo := rp\<rparr>]\<rparr>"
proof -
  have a: "a < length (heap st)"
    using assms by (auto simp: VCS_def bindR_Return_iff deref_Return_iff)
  show ?thesis
  proof (cases "repo (heap st ! a)")
    case (Some r)
    then have "VCS E st a = Return (st, Some r, None)" using a by (rule VCS_cached[rotated])
    then have "st1 = st" "rp = Some r" using assms by simp_all
    moreover have "(heap st ! a)\<lparr>repo := Some r\<rparr> = heap st ! a" using Some by simp
    ultimately show ?thesis using a by simp
  next
    case None
    then show ?thesis using assms a
      by (auto simp: VCS_def bindR_Return_iff Let_def dest: case_prod_Return)
  qed
qed

lemma VCS_again:
  assumes "VCS E st a = Return (st1, Some r, err)"
  shows "a < length (heap st1) \<and> repo (heap st1 ! a) = Some r"
  using VCS_Return[OF assms] by simp

text \<open>
  C9. For the root (the node with no parent) both \<open>Install\<close> and \<open>Checkout\<close> return at
  once, with no error and the state exactly as it was: no field of any node, nothing in the
  world and nothing in the log changes.
\<close>

theorem C9_root_untouched: "a < length (heap st) \<Longrightarrow> parent (heap st ! a) = None \<Longrightarrow>
  Install n E st a = Return (st, None) \<and> Checkout n E st a = Return (st, None)"
  by (simp add: Install_def Install_with_def Checkout_def Checkout_with_def)

theorem C9_root_untouched_witness: "0 < length (heap st_ab) \<and> parent (heap st_ab ! 0) = None \<and>
  Install 1 sim st_ab 0 = Return (st_ab, None) \<and> Checkout 1 sim st_ab 0 = Return (st_ab, None)"
  using C9_root_untouched [of 0 st_ab 1 sim]
  by (simp add: st_ab_def root_a_def NewPkg_def zero_Pkg_def)

lemma Install_locked_err:
  "snd (Install_locked E st a r None) =
     (if repo_CheckLocal E (world st) r then None else fst (repo_Get E (world st) r))"
  by (simp add: Install_locked_def Let_def logf_def split: prod.splits option.splits)

lemma Install_with_resolved:
  assumes "a < length (heap st)" "parent (heap st ! a) = Some pa"
    and "VCS E st a = Return (st1, Some r, err)"
  shows "Install_with init n E st a =
    bindR (Checkout_with init n E (fst (Install_locked E st1 a r err)) a)
      (\<lambda>(st3, cerr). Return (st3, snd (Install_locked E st1 a r err)))"
  using assms by (simp add: Install_with_def split: prod.splits)

text \<open>
  C10. For a node with a parent and a resolved backend, the error \<open>Install\<close> returns is
  the result of the fetch step alone: nil when the checkout was already there, else what
  \<open>Get\<close> returned. The state it returns is the one \<open>Checkout\<close> returns, and the error of
  that \<open>Checkout\<close>, whatever it is, is dropped.
\<close>

theorem C10_install_error_is_fetch_error:
  assumes "a < length (heap st)" and "parent (heap st ! a) = Some pa"
    and "VCS E st a = Return (st1, Some r, None)"
    and "Install n E st a = Return (st', e)"
  shows "e = (if repo_CheckLocal E (world st) r then None else fst (repo_Get E (world st) r)) \<and>
    (\<exists>cerr. Checkout n E (fst (Install_locked E st1 a r None)) a = Return (st', cerr))"
proof -
  have w: "world st1 = world st" using VCS_Return[OF assms(3)] by simp
  have "bindR (Checkout n E (fst (Install_locked E st1 a r None)) a)
      (\<lambda>(st3, cerr). Return (st3, snd (Install_locked E st1 a r None))) = Return (st', e)"
    using Install_with_resolved[OF assms(1,2,3), of "Init n E" n] assms(4)
    by (simp add: Install_def Checkout_def)
  then obtain st3 cerr where c: "Checkout n E (fst (Install_locked E st1 a r None)) a = Return (st3, cerr)"
    and r: "st' = st3" "e = snd (Install_locked E st1 a r None)"
    by (auto simp: bindR_Return_iff)
  show ?thesis using c r w by (simp add: Install_locked_err)
qed

lemma vcs_ab_badref: "VCS sim_badref st_ab 1 =
   Return (st_ab\<lparr>heap := [root_a, dep_b\<lparr>repo := Some ''/w/vendor/github.com/b/b''\<rparr>]\<rparr>,
     Some ''/w/vendor/github.com/b/b'', None)"
  by (simp add: sim_badref_def sim_simps)

theorem C10_install_error_is_fetch_error_witness:
  "Install 1 sim_badref st_ab 1 = Return (fst (val (Install 1 sim_badref st_ab 1)), None) \<and>
   Checkout 1 sim_badref
      (fst (Install_locked sim_badref
         (st_ab\<lparr>heap := [root_a, dep_b\<lparr>repo := Some ''/w/vendor/github.com/b/b''\<rparr>]\<rparr>) 1
         ''/w/vendor/github.com/b/b'' None)) 1 =
     Return (fst (val (Install 1 sim_badref st_ab 1)), Some (Error ''unknown revision''))"
proof -
  have h1: "1 < length (heap st_ab)" by (simp add: st_ab_def)
  have h2: "parent (heap st_ab ! 1) = Some 0" by (simp add: sim_simps)
  have h4: "Install 1 sim_badref st_ab 1 = Return (fst (val (Install 1 sim_badref st_ab 1)), None)"
    by (simp add: sim_badref_def sim_simps)
  have c: "Checkout 1 sim_badref
      (fst (Install_locked sim_badref
         (st_ab\<lparr>heap := [root_a, dep_b\<lparr>repo := Some ''/w/vendor/github.com/b/b''\<rparr>]\<rparr>) 1
         ''/w/vendor/github.com/b/b'' None)) 1 =
     Return (fst (val (Checkout 1 sim_badref
      (fst (Install_locked sim_badref
         (st_ab\<lparr>heap := [root_a, dep_b\<lparr>repo := Some ''/w/vendor/github.com/b/b''\<rparr>]\<rparr>) 1
         ''/w/vendor/github.com/b/b'' None)) 1)), Some (Error ''unknown revision''))"
    by (simp add: sim_badref_def sim_simps)
  show ?thesis
    using C10_install_error_is_fetch_error [OF h1 h2 vcs_ab_badref h4] h4 c by auto
qed





text \<open>
  C1. \<open>Checkout\<close> of a dirty working copy: the warning is logged, and the checkout goes on
  all the same. Here the backend is told to update to \<open>v1\<close> and the pinned reference
  becomes what the backend reports afterwards.
\<close>

theorem C1_dirty_checkout_not_skipped:
  "repo_IsDirty sim_dirty (world st_ab) ''/w/vendor/github.com/b/b'' \<and>
   Checkout 1 sim_dirty st_ab 1 =
     Return (\<lparr>heap = [root_a, dep_b\<lparr>repo := Some ''/w/vendor/github.com/b/b'', installed := True,
                 path := ''/w/vendor/github.com/b/b'', Reference := ''c0ffee'',
                 manifestFile := ''vgo.yaml''\<rparr>],
              world = [(''/w/vendor/github.com/b/b/.git'', no_doc)],
              trace = [Logf ''Skipping checkout for github.com/b/b. Dependency is dirty.'',
                       UpdateVersion ''/w/vendor/github.com/b/b'' ''v1'']\<rparr>, None)"
  by (simp add: sim_dirty_def sim_simps)

text \<open>
  C2. \<open>RepoURL\<close> of \<open>gopkg.in/user/pkg.v3\<close>: the suffix \<open>v3\<close> is stored in the copy the
  method works on, and the node that \<open>VCS\<close> resolved the URL for still has an empty version
  constraint.
\<close>

theorem C2_gopkg_suffix_lost:
  "RepoURL sim (world st_gopkg) dep_gopkg =
     Return (''git@github.com:user/pkg.git'', dep_gopkg\<lparr>Version := ''v3''\<rparr>) \<and>
   VCS sim st_gopkg 1 =
     Return (st_gopkg\<lparr>heap := [root_a, dep_gopkg\<lparr>repo := Some ''/w/vendor/gopkg.in/user/pkg.v3''\<rparr>]\<rparr>,
       Some ''/w/vendor/gopkg.in/user/pkg.v3'', None) \<and>
   Version (heap (fst (val (VCS sim st_gopkg 1))) ! 1) = []"
  by (simp add: sim_simps st_gopkg_def dep_gopkg_def)

text \<open>
  C3, as stated, fails: after a failed fetch \<open>Install\<close> hands the node to \<open>Checkout\<close>, and
  that \<open>Checkout\<close> changes it. Here the pinned reference \<open>v1\<close> is replaced by the empty
  string the backend reports for a missing checkout.
\<close>

theorem C3_counterexample:
  "fst (repo_Get sim_fetchfail (world st_ab_absent) ''/w/vendor/github.com/b/b'') =
     Some (Error ''network unreachable'') \<and>
   Install 1 sim_fetchfail st_ab_absent 1 =
     bindR (Checkout 1 sim_fetchfail st_ab_fetch_failed 1)
       (\<lambda>(st3, cerr). Return (st3, Some (Error ''network unreachable''))) \<and>
   is_Return (Checkout 1 sim_fetchfail st_ab_fetch_failed 1) \<and>
   Reference (heap st_ab_fetch_failed ! 1) = ''v1'' \<and>
   Reference (heap (fst (val (Checkout 1 sim_fetchfail st_ab_fetch_failed 1))) ! 1) = [] \<and>
   heap (fst (val (Checkout 1 sim_fetchfail st_ab_fetch_failed 1))) ! 1 \<noteq> heap st_ab_fetch_failed ! 1"
  by (simp add: st_ab_fetch_failed_def sim_fetchfail_def sim_simps)

section \<open>Manifest Store: results\<close>

lemma subtree_frame:
  "subtree lo chk h p t \<Longrightarrow> chk = False \<Longrightarrow> same_fields p p' \<Longrightarrow> length h \<le> length h' \<Longrightarrow>
     (\<And>x. lo \<le> x \<Longrightarrow> x < length h \<Longrightarrow> same_fields (h ! x) (h' ! x)) \<Longrightarrow>
     subtree lo chk h' p' t"
  "subtrees lo chk h ds cs \<Longrightarrow> chk = False \<Longrightarrow> length h \<le> length h' \<Longrightarrow>
     (\<And>x. lo \<le> x \<Longrightarrow> x < length h \<Longrightarrow> same_fields (h ! x) (h' ! x)) \<Longrightarrow>
     subtrees lo chk h' ds cs"
proof (induction lo chk h p t and lo chk h ds cs arbitrary: p' rule: subtree_subtrees.induct)
  case (1 lo chk h p n v r u ow cs)
  then show ?case by (simp add: same_fields_def)
next
  case (3 lo chk h d ds c cs)
  then show ?case by simp
qed simp_all

lemma same_fields_refl [simp]: "same_fields p p"
  by (simp add: same_fields_def)

lemma subtree_lower:
  "subtree lo chk h p t \<Longrightarrow> lo' \<le> lo \<Longrightarrow> subtree lo' chk h p t"
  "subtrees lo chk h ds cs \<Longrightarrow> lo' \<le> lo \<Longrightarrow> subtrees lo' chk h ds cs"
  by (induction lo chk h p t and lo chk h ds cs rule: subtree_subtrees.induct) simp_all

lemma height_child: "c \<in> set cs \<Longrightarrow> Suc (height c) \<le> height (PTree n v r u ow cs)"
  by (induction cs) auto

lemma height_prune: "height (prune t) \<le> height t"
proof (induction t)
  case (PTree n v r u ow cs)
  have "foldr (\<lambda>c m. max (Suc (height c)) m) (map prune cs) 0 \<le> foldr (\<lambda>c m. max (Suc (height c)) m) cs 0"
    using PTree
  proof (induction cs)
    case Nil
    then show ?case by simp
  next
    case (Cons c cs)
    have "height (prune c) \<le> height c" using Cons.prems by simp
    moreover have "foldr (\<lambda>c m. max (Suc (height c)) m) (map prune cs) 0
        \<le> foldr (\<lambda>c m. max (Suc (height c)) m) cs 0"
      using Cons.prems by (intro Cons.IH) simp
    ultimately show ?case by (simp only: list.map foldr.simps o_apply)
  qed
  then show ?case by simp
qed

lemma owner_free_prune: "owner_free t \<Longrightarrow> prune t = t"
proof (induction t)
  case (PTree n v r u ow cs)
  then have "map prune cs = cs" by (induction cs) auto
  then show ?case using PTree.prems by simp
qed

lemma marshal_seq_ok:
  assumes "\<And>q c. c \<in> set cs \<Longrightarrow> subtree 0 True h q c \<Longrightarrow> rec q = Return (doc_of (prune c))"
    and "subtrees 0 True h ds cs"
  shows "marshal_seq rec h ds = Return (map doc_of (map prune cs))"
  using assms
proof (induction ds arbitrary: cs)
  case Nil
  then show ?case by (cases cs) simp_all
next
  case (Cons d ds)
  then obtain c cs' where cs: "cs = c # cs'" by (cases cs) auto
  have "rec (h ! d) = Return (doc_of (prune c))" using Cons.prems cs by simp
  moreover have "marshal_seq rec h ds = Return (map doc_of (map prune cs'))"
    using Cons.prems cs by (intro Cons.IH) auto
  ultimately show ?case using Cons.prems(2) cs by (simp add: deref_def)
qed

lemma marshal_doc_ok:
  "subtree 0 True h p t \<Longrightarrow> height t \<le> n \<Longrightarrow> marshal_doc n h p = Return (doc_of (prune t))"
proof (induction n arbitrary: p t)
  case 0
  obtain nm v r u ow cs where t: "t = PTree nm v r u ow cs" by (cases t)
  have "cs = []"
  proof (cases cs)
    case (Cons c cs')
    then have "Suc (height c) \<le> height t" unfolding t by (intro height_child) simp
    then show ?thesis using 0 by simp
  qed simp
  then have "Dependencies p = []" using 0 t by (cases "Dependencies p") simp_all
  then show ?case using 0 t \<open>cs = []\<close> by (simp add: marshal_body_def MarshalYAML_def)
next
  case (Suc n)
  obtain nm v r u ow cs where t: "t = PTree nm v r u ow cs" by (cases t)
  have rec: "\<And>q c. c \<in> set cs \<Longrightarrow> subtree 0 True h q c \<Longrightarrow> marshal_doc n h q = Return (doc_of (prune c))"
  proof -
    fix q c assume c: "c \<in> set cs" and s: "subtree 0 True h q c"
    have "Suc (height c) \<le> height t" unfolding t using c by (rule height_child)
    then have "height c \<le> n" using Suc.prems by simp
    then show "marshal_doc n h q = Return (doc_of (prune c))" using s by (intro Suc.IH)
  qed
  have ms: "marshal_seq (marshal_doc n h) h (Dependencies p) = Return (map doc_of (map prune cs))"
    using rec Suc.prems(1) t by (intro marshal_seq_ok) simp_all
  show ?case
  proof (cases ow)
    case True
    then show ?thesis using Suc.prems(1) t by (simp add: marshal_body_def MarshalYAML_def)
  next
    case False
    then show ?thesis using Suc.prems(1) t ms by (auto simp: marshal_body_def MarshalYAML_def)
  qed
qed

lemma omitempty_back [simp]: "(case omitempty s of None \<Rightarrow> [] | Some x \<Rightarrow> x) = s"
  by (simp add: omitempty_def)

lemma subtrees_doc_roundtrip:
  assumes "\<And>c lo (h :: 'r Pkg list) p. c \<in> set cs \<Longrightarrow>
      subtree lo False h p (tree_of_doc (doc_of c)) = subtree lo False h p c"
  shows "subtrees lo False (h :: 'r Pkg list) ds (map tree_of_doc (map doc_of cs)) =
      subtrees lo False h ds cs"
  using assms
proof (induction cs arbitrary: ds)
  case Nil
  then show ?case by simp
next
  case (Cons c cs)
  have c: "subtree lo False h p (tree_of_doc (doc_of c)) = subtree lo False h p c"
    for lo and h :: "'r Pkg list" and p
    using Cons.prems by simp
  have "subtrees lo False h ds' (map tree_of_doc (map doc_of cs)) = subtrees lo False h ds' cs" for ds'
    using Cons.prems by (intro Cons.IH) simp
  then show ?case using c by (cases ds) simp_all
qed

lemma subtree_doc_roundtrip:
  "subtree lo False (h :: 'r Pkg list) p (tree_of_doc (doc_of t)) = subtree lo False h p t"
proof (induction t arbitrary: lo h p)
  case (PTree n v r u ow cs)
  have "subtrees lo False h ds (map tree_of_doc (map doc_of cs)) = subtrees lo False h ds cs" for ds
    by (rule subtrees_doc_roundtrip) (rule PTree.IH)
  then show ?case by (cases "cs = []") simp_all
qed


lemma blank_zero [simp]: "blank zero_Pkg"
  by (simp add: blank_def zero_Pkg_def)

lemma decode_ok:
  "b < length h \<Longrightarrow> blank (h ! b) \<Longrightarrow>
     length h \<le> length (decode_into doc h b) \<and>
     (\<forall>x<length h. x \<noteq> b \<longrightarrow> decode_into doc h b ! x = h ! x) \<and>
     subtree (length h) False (decode_into doc h b) (decode_into doc h b ! b) (tree_of_doc doc)"
  "decode_seq ds h = (h2, cs) \<Longrightarrow>
     length h \<le> length h2 \<and> (\<forall>x<length h. h2 ! x = h ! x) \<and>
     subtrees (length h) False h2 cs (map tree_of_doc ds)"
proof (induction doc h b and ds h arbitrary: and h2 cs rule: decode_into_decode_seq.induct)
  case (1 pkg ver ref deps url h b)
  have bl: "Name (h ! b) = []" "Version (h ! b) = []" "Reference (h ! b) = []" "URL (h ! b) = []"
    "Dependencies (h ! b) = []"
    using 1(3) by (simp_all add: blank_def)
  define nm where "nm = (case pkg of None \<Rightarrow> [] | Some s \<Rightarrow> s)"
  define vr where "vr = (case ver of None \<Rightarrow> [] | Some s \<Rightarrow> s)"
  define rf where "rf = (case ref of None \<Rightarrow> [] | Some s \<Rightarrow> s)"
  define ur where "ur = (case url of None \<Rightarrow> [] | Some s \<Rightarrow> s)"
  obtain h1 cs where d: "(case deps of None \<Rightarrow> (h, None)
            | Some ds \<Rightarrow> (case decode_seq ds h of (h', cs) \<Rightarrow> (h', Some cs))) = (h1, cs)"
    by (cases "(case deps of None \<Rightarrow> (h, None)
            | Some ds \<Rightarrow> (case decode_seq ds h of (h', cs) \<Rightarrow> (h', Some cs)))")
  define dl where "dl = (case cs of None \<Rightarrow> [] | Some l \<Rightarrow> l)"
  have ih: "length h \<le> length h1 \<and> (\<forall>x<length h. h1 ! x = h ! x) \<and>
       subtrees (length h) False h1 dl (case deps of None \<Rightarrow> [] | Some ds \<Rightarrow> map tree_of_doc ds)"
  proof (cases deps)
    case None
    then show ?thesis using d by (simp add: dl_def)
  next
    case (Some ds)
    obtain h' cs' where s: "decode_seq ds h = (h', cs')" by (cases "decode_seq ds h")
    have "h1 = h'" "cs = Some cs'" using d Some s by simp_all
    then show ?thesis using 1(1)[OF Some s] Some by (simp add: dl_def)
  qed
  have hb: "h1 ! b = h ! b" using ih 1(2) by simp
  define p' where "p' = (h1 ! b)\<lparr>Name := nm, Version := vr, Reference := rf, Dependencies := dl,
     URL := ur\<rparr>"
  have e1: "(case pkg of None \<Rightarrow> Name (h1 ! b) | Some s \<Rightarrow> s) = nm"
    by (cases pkg) (simp_all add: nm_def hb bl)
  have e2: "(case ver of None \<Rightarrow> Version (h1 ! b) | Some s \<Rightarrow> s) = vr"
    by (cases ver) (simp_all add: vr_def hb bl)
  have e3: "(case ref of None \<Rightarrow> Reference (h1 ! b) | Some s \<Rightarrow> s) = rf"
    by (cases ref) (simp_all add: rf_def hb bl)
  have e4: "(case url of None \<Rightarrow> URL (h1 ! b) | Some s \<Rightarrow> s) = ur"
    by (cases url) (simp_all add: ur_def hb bl)
  have e5: "(case cs of None \<Rightarrow> Dependencies (h1 ! b) | Some l \<Rightarrow> l) = dl"
    by (cases cs) (simp_all add: dl_def hb bl)
  have r: "decode_into (YDoc pkg ver ref deps url) h b = h1[b := p']"
    unfolding decode_into.simps d by (simp add: e1 e2 e3 e4 e5 p'_def)
  have f: "subtrees (length h) False (h1[b := p']) dl
      (case deps of None \<Rightarrow> [] | Some ds \<Rightarrow> map tree_of_doc ds)"
  proof (rule subtree_frame(2)[where h=h1])
    show "subtrees (length h) False h1 dl (case deps of None \<Rightarrow> [] | Some ds \<Rightarrow> map tree_of_doc ds)"
      using ih by simp
    show "length h1 \<le> length (h1[b := p'])" by simp
    show "same_fields (h1 ! x) (h1[b := p'] ! x)" if "length h \<le> x" "x < length h1" for x
    proof -
      have "x \<noteq> b" using that 1(2) by simp
      then show ?thesis by simp
    qed
  qed simp
  have t: "subtree (length h) False (h1[b := p']) p' (tree_of_doc (YDoc pkg ver ref deps url))"
    using f by (simp add: p'_def nm_def vr_def rf_def ur_def)
  have b1: "b < length h1" using ih 1(2) by simp
  have "length h \<le> length (h1[b := p'])" using ih by simp
  moreover have "\<forall>x<length h. x \<noteq> b \<longrightarrow> h1[b := p'] ! x = h ! x" using ih by simp
  moreover have "subtree (length h) False (h1[b := p']) (h1[b := p'] ! b)
      (tree_of_doc (YDoc pkg ver ref deps url))"
    using t b1 by simp
  ultimately show ?case unfolding r by blast
next
  case (2 h)
  then show ?case by simp
next
  case (3 d ds h)
  let ?c = "length h"
  define h1 where "h1 = decode_into d (h @ [zero_Pkg]) ?c"
  obtain h2' cs' where s: "decode_seq ds h1 = (h2', cs')" by (cases "decode_seq ds h1")
  have r: "h2 = h2'" "cs = ?c # cs'" using 3(3) s by (simp_all add: Let_def h1_def)
  have i1: "length (h @ [zero_Pkg]) \<le> length h1 \<and>
     (\<forall>x<length (h @ [zero_Pkg]). x \<noteq> ?c \<longrightarrow> h1 ! x = (h @ [zero_Pkg]) ! x) \<and>
     subtree (length (h @ [zero_Pkg])) False h1 (h1 ! ?c) (tree_of_doc d)"
    unfolding h1_def by (rule 3(1)) simp_all
  have i2: "length h1 \<le> length h2' \<and> (\<forall>x<length h1. h2' ! x = h1 ! x) \<and>
     subtrees (length h1) False h2' cs' (map tree_of_doc ds)"
    using s unfolding h1_def by (rule 3(2)[OF refl refl])
  have l: "?c < length h1" using i1 by simp
  have a: "\<forall>x<length h. h2' ! x = h ! x"
  proof (intro allI impI)
    fix x assume x: "x < length h"
    then have "h2' ! x = h1 ! x" using i2 l by simp
    also have "\<dots> = (h @ [zero_Pkg]) ! x" using i1 x by simp
    finally show "h2' ! x = h ! x" using x by (simp add: nth_append)
  qed
  have "subtree ?c False h1 (h1 ! ?c) (tree_of_doc d)"
    by (rule subtree_lower(1)[where lo="length (h @ [zero_Pkg])"]) (use i1 in simp_all)
  then have t1: "subtree ?c False h2' (h2' ! ?c) (tree_of_doc d)"
  proof (rule subtree_frame(1))
    show "same_fields (h1 ! ?c) (h2' ! ?c)" using i2 l by simp
    show "length h1 \<le> length h2'" using i2 by simp
    show "same_fields (h1 ! x) (h2' ! x)" if "x < length h1" for x using i2 that by simp
  qed simp
  have t2: "subtrees ?c False h2' cs' (map tree_of_doc ds)"
    by (rule subtree_lower(2)[where lo="length h1"]) (use i2 l in simp_all)
  have "?c < length h2'" using i2 l by simp
  then show ?case using r a t1 t2 i2 l by simp
qed


lemma same_persistent_refl [simp]: "same_persistent h h"
  by (simp add: same_persistent_def)

lemma same_persistent_trans:
  "same_persistent h h1 \<Longrightarrow> same_persistent h1 h2 \<Longrightarrow> same_persistent h h2"
  by (simp add: same_persistent_def same_fields_def)

lemma same_persistent_frame:
  assumes "same_persistent h h'"
  shows "subtree lo False h p t \<Longrightarrow> same_fields p p' \<Longrightarrow> subtree lo False h' p' t"
    and "subtrees lo False h ds cs \<Longrightarrow> subtrees lo False h' ds cs"
proof -
  have l: "length h \<le> length h'" using assms by (simp add: same_persistent_def)
  have f: "\<And>x. lo \<le> x \<Longrightarrow> x < length h \<Longrightarrow> same_fields (h ! x) (h' ! x)"
    using assms by (simp add: same_persistent_def)
  show "subtree lo False h' p' t" if a: "subtree lo False h p t" and b: "same_fields p p'"
    by (rule subtree_frame(1)[OF a refl b l f])
  show "subtrees lo False h' ds cs" if a: "subtrees lo False h ds cs"
    by (rule subtree_frame(2)[OF a refl l f])
qed

lemma same_persistent_nth:
  "same_persistent h h' \<Longrightarrow> x < length h \<Longrightarrow> same_fields (h ! x) (h' ! x)"
  by (simp add: same_persistent_def)

lemma same_persistent_parent:
  "d < length h \<Longrightarrow> same_persistent h (h[d := (h ! d)\<lparr>parent := x\<rparr>])"
  by (simp add: same_persistent_def same_fields_def nth_list_update)

lemma updateDepsParents_loop_ok:
  assumes "\<And>h1 d c. c \<in> set cs \<Longrightarrow> d < length h1 \<Longrightarrow> subtree lo False h1 (h1 ! d) c \<Longrightarrow>
      \<exists>h2. rec h1 d = Return h2 \<and> same_persistent h1 h2"
    and "subtrees lo False h ds cs"
  shows "\<exists>h'. updateDepsParents_loop rec a h ds = Return h' \<and> same_persistent h h'"
  using assms
proof (induction ds arbitrary: cs h)
  case Nil
  then show ?case by simp
next
  case (Cons d ds)
  then obtain c cs' where cs: "cs = c # cs'" by (cases cs) auto
  have d: "d < length h" and sd: "subtree lo False h (h ! d) c" and ss: "subtrees lo False h ds cs'"
    using Cons.prems(2) cs by simp_all
  define h1 where "h1 = h[d := (h ! d)\<lparr>parent := Some a\<rparr>]"
  have p1: "same_persistent h h1" unfolding h1_def using d by (rule same_persistent_parent)
  have "subtree lo False h1 (h1 ! d) c"
    using p1 sd by (rule same_persistent_frame(1)) (rule same_persistent_nth[OF p1 d])
  moreover have "d < length h1" using d by (simp add: h1_def)
  ultimately obtain h2 where r: "rec h1 d = Return h2" and p2: "same_persistent h1 h2"
    using Cons.prems(1)[of c d h1] cs by auto
  have p02: "same_persistent h h2" using p1 p2 by (rule same_persistent_trans)
  have "subtrees lo False h2 ds cs'" using p02 ss by (rule same_persistent_frame(2))
  moreover have "\<And>h1 d c. c \<in> set cs' \<Longrightarrow> d < length h1 \<Longrightarrow> subtree lo False h1 (h1 ! d) c \<Longrightarrow>
      \<exists>h2. rec h1 d = Return h2 \<and> same_persistent h1 h2"
    using Cons.prems(1) cs by (metis list.set_intros(2))
  ultimately obtain h' where l: "updateDepsParents_loop rec a h2 ds = Return h'"
    and p3: "same_persistent h2 h'"
    using Cons.IH[of cs' h2] by blast
  have "updateDepsParents_loop rec a h (d # ds) = Return h'"
    using d r l by (simp add: h1_def)
  moreover have "same_persistent h h'" using p02 p3 by (rule same_persistent_trans)
  ultimately show ?case by blast
qed

lemma updateDepsParents_ok:
  "a < length (h :: 'r Pkg list) \<Longrightarrow> subtree lo False h (h ! a) t \<Longrightarrow> height t \<le> m \<Longrightarrow>
     \<exists>h'. updateDepsParents m h a = Return h' \<and> same_persistent h h'"
proof (induction m arbitrary: h a t)
  case 0
  obtain nm v r u ow cs where t: "t = PTree nm v r u ow cs" by (cases t)
  have "cs = []"
  proof (cases cs)
    case (Cons c cs')
    then have "Suc (height c) \<le> height t" unfolding t by (intro height_child) simp
    then show ?thesis using 0 by simp
  qed simp
  then have "Dependencies (h ! a) = []" using 0 t by (cases "Dependencies (h ! a)") simp_all
  then show ?case using 0(1) by simp
next
  case (Suc m)
  obtain nm v r u ow cs where t: "t = PTree nm v r u ow cs" by (cases t)
  have rec: "\<exists>h2. updateDepsParents m h1 d = Return h2 \<and> same_persistent h1 h2"
    if c: "c \<in> set cs" and d: "d < length h1" and s: "subtree lo False h1 (h1 ! d) c"
    for h1 :: "'r Pkg list" and d c
  proof -
    have "Suc (height c) \<le> height t" unfolding t using c by (rule height_child)
    then have "height c \<le> m" using Suc.prems by simp
    with d s show ?thesis by (rule Suc.IH)
  qed
  have "subtrees lo False h (Dependencies (h ! a)) cs" using Suc.prems(2) t by simp
  then have "\<exists>h'. updateDepsParents_loop (updateDepsParents m) a h (Dependencies (h ! a)) = Return h' \<and>
      same_persistent h h'"
    using rec by (rule updateDepsParents_loop_ok[rotated])
  then show ?case using Suc.prems(1) by simp
qed

lemma height_doc_roundtrip: "height (tree_of_doc (doc_of t)) = height t"
proof (induction t)
  case (PTree n v r u ow cs)
  have "foldr (\<lambda>c m. max (Suc (height c)) m) (map tree_of_doc (map doc_of cs)) 0 =
      foldr (\<lambda>c m. max (Suc (height c)) m) cs 0"
    using PTree
  proof (induction cs)
    case Nil
    then show ?case by simp
  next
    case (Cons c cs)
    have "height (tree_of_doc (doc_of c)) = height c" using Cons.prems by simp
    moreover have "foldr (\<lambda>c m. max (Suc (height c)) m) (map tree_of_doc (map doc_of cs)) 0 =
      foldr (\<lambda>c m. max (Suc (height c)) m) cs 0"
      using Cons.prems by (intro Cons.IH) simp
    ultimately show ?case by (simp only: list.map foldr.simps o_apply)
  qed
  then show ?case by (cases "cs = []") simp_all
qed

lemma LoadManifest_ok:
  assumes b: "b < length (heap st)" and bl: "blank (heap st ! b)"
    and rd: "ReadFile E (world st) (Join E [path (heap st ! b),
               if manifestFile (heap st ! b) = [] then ''vgo.yaml'' else manifestFile (heap st ! b)])
             = Inr data"
    and dec: "yaml_decode E data = Inr doc"
    and fuel: "height (tree_of_doc doc) \<le> m"
  shows "\<exists>st2. LoadManifest m E st b = Return (st2, None) \<and>
           subtree 0 False (heap st2) (heap st2 ! b) (tree_of_doc doc)"
proof -
  define p1 where "p1 = (heap st ! b)\<lparr>hasManifest := False\<rparr>"
  define p2 where "p2 = (if length (manifestFile p1) = 0 then p1\<lparr>manifestFile := ''vgo.yaml''\<rparr> else p1)"
  define st1 where "st1 = st\<lparr>heap := (heap st)[b := p2]\<rparr>"
  define h2 where "h2 = decode_into doc (heap st1) b"
  define h3 where "h3 = h2[b := (h2 ! b)\<lparr>hasManifest := True\<rparr>]"
  have b1: "b < length (heap st1)" using b by (simp add: st1_def)
  have bl2: "blank p2" using bl by (simp add: p2_def p1_def blank_def)
  have bl1: "blank (heap st1 ! b)" using b bl2 by (simp add: st1_def)
  have d: "length (heap st1) \<le> length h2 \<and> (\<forall>x<length (heap st1). x \<noteq> b \<longrightarrow> h2 ! x = heap st1 ! x) \<and>
     subtree (length (heap st1)) False h2 (h2 ! b) (tree_of_doc doc)"
    unfolding h2_def using b1 bl1 by (rule decode_ok(1))
  have b2: "b < length h2" using d b1 by simp
  have b3: "b < length h3" using b2 by (simp add: h3_def)
  have s3: "subtree (length (heap st1)) False h3 (h3 ! b) (tree_of_doc doc)"
  proof (rule subtree_frame(1)[where h=h2 and p="h2 ! b"])
    show "subtree (length (heap st1)) False h2 (h2 ! b) (tree_of_doc doc)" using d by simp
    show "same_fields (h2 ! b) (h3 ! b)" using b2 by (simp add: h3_def same_fields_def)
    show "length h2 \<le> length h3" by (simp add: h3_def)
    show "same_fields (h2 ! x) (h3 ! x)" if "length (heap st1) \<le> x" "x < length h2" for x
    proof -
      have "x \<noteq> b" using that b1 by simp
      then show ?thesis by (simp add: h3_def)
    qed
  qed simp
  obtain h4 where u: "updateDepsParents m h3 b = Return h4" and sp: "same_persistent h3 h4"
    using updateDepsParents_ok[OF b3 s3 fuel] by blast
  have "subtree (length (heap st1)) False h4 (h4 ! b) (tree_of_doc doc)"
    using sp s3 by (rule same_persistent_frame(1)) (rule same_persistent_nth[OF sp b3])
  then have s4: "subtree 0 False h4 (h4 ! b) (tree_of_doc doc)"
    by (rule subtree_lower(1)) simp
  have pm: "path p2 = path (heap st ! b)"
    "manifestFile p2 = (if manifestFile (heap st ! b) = [] then ''vgo.yaml'' else manifestFile (heap st ! b))"
    by (simp_all add: p2_def p1_def)
  have r1: "ReadFile E (world st1) (Join E [path p2, manifestFile p2]) = Inr data"
    unfolding pm using rd by (simp add: st1_def)
  have "LoadManifest m E st b = Return (st1\<lparr>heap := h4\<rparr>, None)"
    unfolding LoadManifest_def Let_def deref_Return[OF b] bindR.simps
    unfolding p1_def[symmetric] p2_def[symmetric] st1_def[symmetric]
    by (simp only: r1 dec u[unfolded h3_def h2_def] sum.case bindR.simps)
  moreover have "heap (st1\<lparr>heap := h4\<rparr>) = h4" by simp
  ultimately show ?thesis using s4 by metis
qed

lemma SaveManifest_ok:
  assumes "describes (heap st) p t" and "height t \<le> n"
    and "SaveManifest n E st p = Return (st1, None)"
  shows "\<exists>data. yaml_encode E (doc_of (prune t)) = Inr data \<and> heap st1 = heap st \<and>
     WriteFile E (world st) (Join E [path p, manifestFile p]) data = (None, world st1)"
proof -
  have "marshal_doc n (heap st) p = Return (doc_of (prune t))"
    using assms(1,2) unfolding describes_def by (rule marshal_doc_ok)
  then show ?thesis using assms(3)
    by (auto simp: SaveManifest_def split: sum.splits prod.splits option.splits)
qed

text \<open>
  C5. A node \<open>p\<close> whose dependency tree is \<open>t\<close> is saved, and the file is loaded into a node
  that holds nothing yet; the codec gives back the document it was given and the file system
  the file that was written. Then \<open>LoadManifest\<close> returns without error and the loaded node
  carries the name, version constraint, reference and URL of \<open>p\<close> and, below it, the tree
  \<open>t\<close> with the same four fields at every node, cut off below every node that owns a
  manifest and is not the root (\<open>prune\<close>): the whole of \<open>t\<close> when no node of it is one.
\<close>

theorem C5_manifest_roundtrip:
  assumes d: "describes (heap st) p t" and fn: "height t \<le> n" and fm: "height t \<le> m"
    and codec: "\<forall>doc data. yaml_encode E doc = Inr data \<longrightarrow> yaml_decode E data = Inr doc"
    and fs: "\<forall>w f data w'. WriteFile E w f data = (None, w') \<longrightarrow> ReadFile E w' f = Inr data"
    and save: "SaveManifest n E st p = Return (st1, None)"
    and b: "b < length (heap st)" and bl: "blank (heap st ! b)"
    and same_file: "Join E [path (heap st ! b),
                 if manifestFile (heap st ! b) = [] then ''vgo.yaml'' else manifestFile (heap st ! b)]
               = Join E [path p, manifestFile p]"
  shows "\<exists>st2. LoadManifest m E st1 b = Return (st2, None) \<and>
           persists (heap st2) (heap st2 ! b) (prune t) \<and>
           (owner_free t \<longrightarrow> persists (heap st2) (heap st2 ! b) t)"
proof -
  obtain data where enc: "yaml_encode E (doc_of (prune t)) = Inr data" and h: "heap st1 = heap st"
    and wr: "WriteFile E (world st) (Join E [path p, manifestFile p]) data = (None, world st1)"
    using SaveManifest_ok[OF d fn save] by blast
  have dec: "yaml_decode E data = Inr (doc_of (prune t))" using codec enc by blast
  have rd: "ReadFile E (world st1) (Join E [path (heap st1 ! b),
               if manifestFile (heap st1 ! b) = [] then ''vgo.yaml'' else manifestFile (heap st1 ! b)])
             = Inr data"
    unfolding h same_file using fs wr by blast
  have ht: "height (tree_of_doc (doc_of (prune t))) \<le> m"
    using height_prune[of t] fm by (simp add: height_doc_roundtrip)
  obtain st2 where l: "LoadManifest m E st1 b = Return (st2, None)"
    and s: "subtree 0 False (heap st2) (heap st2 ! b) (tree_of_doc (doc_of (prune t)))"
    using LoadManifest_ok[OF _ _ rd dec ht] b bl h by auto
  have p: "persists (heap st2) (heap st2 ! b) (prune t)"
    using s by (simp add: persists_def subtree_doc_roundtrip)
  show ?thesis using l p by (auto simp: owner_free_prune)
qed


lemma sim_codec:
  "\<forall>doc data. yaml_encode sim doc = Inr data \<longrightarrow> yaml_decode sim data = Inr doc"
  by (simp add: sim_def)

lemma sim_fs:
  "\<forall>w f data w'. WriteFile sim w f data = (None, w') \<longrightarrow> ReadFile sim w' f = Inr data"
  by (auto simp: sim_def)

lemmas scen5_simps = root_m_def dep_b_owner_def dep_c_def fresh_root_def st_plain_def st_owner_def
  tree_plain_def tree_owner_def describes_def blank_def


theorem C5_manifest_roundtrip_witness:
  "describes (heap st_owner) root_m tree_owner \<and>
   SaveManifest 2 sim st_owner root_m = Return (st_owner_saved, None) \<and>
   (\<exists>st2. LoadManifest 2 sim st_owner_saved 3 = Return (st2, None) \<and>
      persists (heap st2) (heap st2 ! 3)
        (PTree ''github.com/a/a'' [] [] [] False [PTree ''github.com/b/b'' [] ''v1'' [] True []])) \<and>
   describes (heap st_plain) root_m tree_plain \<and> owner_free tree_plain \<and>
   SaveManifest 1 sim st_plain root_m = Return (st_plain_saved, None) \<and>
   (\<exists>st2. LoadManifest 1 sim st_plain_saved 2 = Return (st2, None) \<and>
      persists (heap st2) (heap st2 ! 2) tree_plain)"
proof -
  have d1: "describes (heap st_owner) root_m tree_owner"
    by (simp add: scen5_simps sim_simps)
  have h1: "height tree_owner \<le> 2" by (simp add: tree_owner_def)
  have s1: "SaveManifest 2 sim st_owner root_m = Return (st_owner_saved, None)"
    by (simp add: st_owner_saved_def scen5_simps sim_simps numeral_2_eq_2)
  have b1: "3 < length (heap st_owner)" by (simp add: st_owner_def)
  have bl1: "blank (heap st_owner ! 3)" by (simp add: scen5_simps zero_Pkg_def)
  have f1: "Join sim [path (heap st_owner ! 3),
       if manifestFile (heap st_owner ! 3) = [] then ''vgo.yaml'' else manifestFile (heap st_owner ! 3)] =
     Join sim [path root_m, manifestFile root_m]"
    by (simp add: scen5_simps sim_simps)
  have d2: "describes (heap st_plain) root_m tree_plain"
    by (simp add: scen5_simps sim_simps)
  have h2: "height tree_plain \<le> 1" by (simp add: tree_plain_def)
  have o2: "owner_free tree_plain" by (simp add: tree_plain_def)
  have s2: "SaveManifest 1 sim st_plain root_m = Return (st_plain_saved, None)"
    by (simp add: st_plain_saved_def scen5_simps sim_simps)
  have b2: "2 < length (heap st_plain)" by (simp add: st_plain_def)
  have bl2: "blank (heap st_plain ! 2)" by (simp add: scen5_simps zero_Pkg_def)
  have f2: "Join sim [path (heap st_plain ! 2),
       if manifestFile (heap st_plain ! 2) = [] then ''vgo.yaml'' else manifestFile (heap st_plain ! 2)] =
     Join sim [path root_m, manifestFile root_m]"
    by (simp add: scen5_simps sim_simps)
  have p1: "prune tree_owner =
     PTree ''github.com/a/a'' [] [] [] False [PTree ''github.com/b/b'' [] ''v1'' [] True []]"
    by (simp add: tree_owner_def)
  show ?thesis
    using C5_manifest_roundtrip [OF d1 h1 h1 sim_codec sim_fs s1 b1 bl1 f1]
      C5_manifest_roundtrip [OF d2 h2 h2 sim_codec sim_fs s2 b2 bl2 f2] d1 s1 d2 o2 s2
    unfolding p1 by blast
qed

section \<open>Graph Builder: results\<close>

lemma same_links_refl [simp]: "same_links p p"
  by (simp add: same_links_def)

lemma links_kept_refl [simp]: "links_kept h h"
  by (simp add: links_kept_def)

lemma links_kept_trans: "links_kept h h1 \<Longrightarrow> links_kept h1 h2 \<Longrightarrow> links_kept h h2"
  by (simp add: links_kept_def same_links_def)






























end
